theory Spec2Isabelle
  imports Complex_Main "HOL-Library.AList" "HOL-Library.Sublist"
begin

section \<open>Data model of \<open>agent/graph.py\<close>\<close>

text \<open>
  The billing-code records that travel through the graph are Python dicts with the keys
  \<open>code\<close>, \<open>name\<close>, \<open>description\<close> and, after validation, \<open>explanation\<close>.
  They are modelled as a record. A key that is absent and a key bound to Python's
  \<open>None\<close> are both \<open>None\<close> here: the code reads \<open>explanation\<close> only through
  \<open>v.get("explanation")\<close>, which does not tell them apart. Codes are Python integers
  (the schema of \<open>add_code\<close> declares \<open>"type": "integer"\<close>), so \<open>int(v["code"])\<close>
  is the identity on them.
\<close>

record vykon =
  code :: int
  name :: string
  description :: "string option"
  explanation :: "string option"

text \<open>\<open>VykonAction\<close> of \<open>validate\<close>: \<open>action: Literal["keep", "remove"]\<close>.\<close>

datatype action = Keep | Remove

record VykonAction =
  va_code :: int
  va_explanation :: string
  va_action :: action

text \<open>\<open>MKN10Code\<close> of \<open>preprocess\<close>.\<close>

record MKN10Code =
  dg_code :: string
  dg_description :: string

text \<open>
  Exceptions are values: \<open>KeyError\<close> is what pandas and dict indexing raise,
  \<open>CollaboratorFailure\<close> stands for any exception of a language-model call.
\<close>

datatype error = KeyError | CollaboratorFailure

text \<open>
  \<open>AgentState\<close> (declared in \<open>agent/state.py\<close>, used here through its attributes).
  \<open>diagnosis\<close> is the dict \<open>{"vykony": [...]}\<close>; the code reads it only with
  \<open>state.diagnosis.get("vykony", [])\<close>, so it is the list, empty when the key is absent.
\<close>

record AgentState =
  report :: string
  preprocess_diagnosis :: "MKN10Code list"
  diagnosis :: "vykon list"
  validity :: "VykonAction list option"

section \<open>The validation stage: keep/remove reconciliation\<close>

text \<open>
  \<open>next((v for v in validation.vykony if v.code == vykon["code"]), None)\<close>: the first
  verdict with the record's code.
\<close>

definition validity_of :: "VykonAction list \<Rightarrow> vykon \<Rightarrow> VykonAction option" where
  "validity_of validation vykon = List.find (\<lambda>v. va_code v = code vykon) validation"

text \<open>
  The loop of lines 326 to 332, with \<open>new_vykony\<close> as the accumulator. A pydantic
  object is truthy, so \<open>not validity\<close> holds exactly when no verdict was found.
\<close>

fun validate_loop :: "VykonAction list \<Rightarrow> vykon list \<Rightarrow> vykon list \<Rightarrow> vykon list" where
  "validate_loop validation [] new_vykony = new_vykony"
| "validate_loop validation (vykon # rest) new_vykony =
     (case validity_of validation vykon of
        None \<Rightarrow>
          validate_loop validation rest (new_vykony @ [vykon\<lparr>explanation := None\<rparr>])
      | Some verdict \<Rightarrow>
          if va_action verdict \<noteq> Remove
          then validate_loop validation rest
                 (new_vykony @ [vykon\<lparr>explanation := Some (va_explanation verdict)\<rparr>])
          else validate_loop validation rest new_vykony)"

definition reconcile :: "VykonAction list \<Rightarrow> vykon list \<Rightarrow> vykon list" where
  "reconcile validation vykony = validate_loop validation vykony []"

section \<open>The code-selection stage: the schema of \<open>model\<close>\<close>

text \<open>
  Python truthiness of \<open>description\<close> in \<open>add_code\<close>: \<open>None\<close> and the empty
  string are falsy.
\<close>

definition truthy :: "string option \<Rightarrow> bool" where
  "truthy d = (case d of None \<Rightarrow> False | Some s \<Rightarrow> s \<noteq> [])"

text \<open>
  One entry of \<open>"definitions"\<close>: the constants of its properties and its
  \<open>required\<close> list. \<open>const_description = None\<close> means that the entry has no
  \<open>description\<close> property.
\<close>

record code_def =
  const_code :: int
  const_name :: string
  const_description :: "string option"
  required :: "string list"

text \<open>
  The parts of the schema that depend on the candidates. The key \<open>str(code)\<close> of a
  definition and the reference \<open>"#/definitions/" + str(code)\<close> are represented by the
  code itself (\<open>str\<close> is injective on integers).
\<close>

record schema =
  definitions :: "(int \<times> code_def) list"
  anyOf :: "int list"
  minItems :: nat

text \<open>
  \<open>add_code\<close> appends a reference to \<open>code_refs\<close> and returns the one-entry dict; the
  list is threaded explicitly.
\<close>

definition add_code ::
  "int \<Rightarrow> string \<Rightarrow> string option \<Rightarrow> int list \<Rightarrow> int list \<times> (int \<times> code_def)" where
  "add_code c n d code_refs =
     (code_refs @ [c],
      (c, \<lparr>const_code = c, const_name = n,
           const_description = (if truthy d then d else None),
           required = (if truthy d then [''code'', ''name'', ''description'']
                       else [''code'', ''name''])\<rparr>))"

text \<open>
  One step of the \<open>reduce\<close>: \<open>{**acc, **add_code(...)}\<close>. Merging a one-entry dict
  into a Python dict replaces the value of a key that is present, in place, and appends a
  new key at the end: \<open>AList.update\<close>.
\<close>

definition reduce_step ::
  "vykon \<Rightarrow> (int \<times> code_def) list \<times> int list \<Rightarrow> (int \<times> code_def) list \<times> int list" where
  "reduce_step item st =
     (let (code_refs', (k, d)) = add_code (code item) (name item) (description item) (snd st)
      in (AList.update k d (fst st), code_refs'))"

definition build_schema :: "vykon list \<Rightarrow> schema" where
  "build_schema suggested_vykony =
     (let st = fold reduce_step suggested_vykony ([], [])
      in \<lparr>definitions = fst st, anyOf = snd st, minItems = 1\<rparr>)"

subsection \<open>What the schema accepts\<close>

datatype json =
  JNull | JBool bool | JInt int | JStr string | JArr "json list" | JObj "(string \<times> json) list"

text \<open>
  JSON Schema (draft-07) for the keywords the schema uses. An entry of
  \<open>"definitions"\<close> has \<open>"type": "object"\<close>, \<open>"required"\<close> and, per property, a
  \<open>"const"\<close>, which constrains the property only when the instance has it.
\<close>

definition valid_def :: "code_def \<Rightarrow> json \<Rightarrow> bool" where
  "valid_def d j =
     (case j of
        JObj kvs \<Rightarrow>
          list_all (\<lambda>k. map_of kvs k \<noteq> None) (required d) \<and>
          (case map_of kvs ''code'' of None \<Rightarrow> True | Some v \<Rightarrow> v = JInt (const_code d)) \<and>
          (case map_of kvs ''name'' of None \<Rightarrow> True | Some v \<Rightarrow> v = JStr (const_name d)) \<and>
          (case const_description d of
             None \<Rightarrow> True
           | Some s \<Rightarrow>
               (case map_of kvs ''description'' of None \<Rightarrow> True | Some v \<Rightarrow> v = JStr s))
      | _ \<Rightarrow> False)"

text \<open>\<open>"items": {"anyOf": code_refs}\<close>: some reference resolves to a definition that holds.\<close>

definition valid_item :: "schema \<Rightarrow> json \<Rightarrow> bool" where
  "valid_item sch j =
     list_ex (\<lambda>r. case map_of (definitions sch) r of None \<Rightarrow> False | Some d \<Rightarrow> valid_def d j)
       (anyOf sch)"

text \<open>
  The top level: \<open>"type": "object"\<close> with the property \<open>vykony\<close>, an array of at
  least \<open>minItems\<close> items. The schema has no top-level \<open>"required"\<close>.
\<close>

definition schema_accepts :: "schema \<Rightarrow> json \<Rightarrow> bool" where
  "schema_accepts sch inst =
     (case inst of
        JObj kvs \<Rightarrow>
          (case map_of kvs ''vykony'' of
             None \<Rightarrow> True
           | Some (JArr items) \<Rightarrow> minItems sch \<le> length items \<and> list_all (valid_item sch) items
           | Some _ \<Rightarrow> False)
      | _ \<Rightarrow> False)"

section \<open>The co-occurrence model\<close>

text \<open>
  \<open>vykony\<close>, the transaction table: one \<open>(CDOKL, KOD)\<close> pair per row of the CSV file
  (\<open>set_index("CDOKL")["KOD"]\<close> drops every other column).
\<close>

type_synonym vykony_table = "(int \<times> int) list"

text \<open>
  \<open>pd.get_dummies(...)\<close> has one column per distinct \<open>KOD\<close>, in sorted order, and
  \<open>groupby("CDOKL").sum()\<close> has one row per distinct \<open>CDOKL\<close>, holding the number of
  rows of the table with that document and that code.
\<close>

definition pivot_columns :: "vykony_table \<Rightarrow> int list" where
  "pivot_columns vykony = sort (remdups (map snd vykony))"

definition pivot_index :: "vykony_table \<Rightarrow> int list" where
  "pivot_index vykony = sort (remdups (map fst vykony))"

definition vykony_pivot :: "vykony_table \<Rightarrow> int \<Rightarrow> int \<Rightarrow> int" where
  "vykony_pivot vykony cdokl kod = int (length (filter (\<lambda>r. r = (cdokl, kod)) vykony))"

text \<open>
  \<open>np.dot(vykony_pivot.T, vykony_pivot)\<close> followed by \<open>np.fill_diagonal(..., 0)\<close>.
  Cells are addressed by their row and column labels; the labels are distinct, so a cell
  is on the diagonal exactly when its two labels are equal.
\<close>

definition co_occurrence_matrix :: "vykony_table \<Rightarrow> int \<Rightarrow> int \<Rightarrow> int" where
  "co_occurrence_matrix vykony a b =
     (if a = b then 0
      else sum_list
        (map (\<lambda>d. vykony_pivot vykony d a * vykony_pivot vykony d b) (pivot_index vykony)))"

text \<open>
  \<open>co_occurrence_df.min()\<close> and \<open>.max()\<close> reduce along the rows: one value per column.
\<close>

definition column_min :: "vykony_table \<Rightarrow> int \<Rightarrow> int" where
  "column_min vykony b = Min (set (map (\<lambda>a. co_occurrence_matrix vykony a b) (pivot_columns vykony)))"

definition column_max :: "vykony_table \<Rightarrow> int \<Rightarrow> int" where
  "column_max vykony b = Max (set (map (\<lambda>a. co_occurrence_matrix vykony a b) (pivot_columns vykony)))"

text \<open>
  \<open>(df - df.min()) / (df.max() - df.min())\<close> broadcasts the two series over the
  columns, and \<open>fillna(0)\<close> replaces the \<open>0/0\<close> of a constant column. The quotient is
  taken in the rationals; the code computes it in binary floating point.
\<close>

definition normalized_cell :: "vykony_table \<Rightarrow> int \<Rightarrow> int \<Rightarrow> rat" where
  "normalized_cell vykony a b =
     (let mn = column_min vykony b; mx = column_max vykony b
      in if mx = mn then 0
         else of_int (co_occurrence_matrix vykony a b - mn) / of_int (mx - mn))"

text \<open>
  \<open>co_occurrence_df_normalized\<close>: the column \<open>kod\<close> of row labels, and one column per
  code, read as \<open>cell df row_label column_label\<close>.
\<close>

record co_df =
  kod :: "int list"
  cell :: "int \<Rightarrow> int \<Rightarrow> rat"

definition co_occurrence_df_normalized :: "vykony_table \<Rightarrow> co_df" where
  "co_occurrence_df_normalized vykony =
     \<lparr>kod = pivot_columns vykony, cell = normalized_cell vykony\<rparr>"

text \<open>
  \<open>strength(a, b)\<close>: the cell in the row of \<open>a\<close> and the column of \<open>b\<close>, as
  \<open>add_co_occurrence\<close> reads it (row \<open>kod == pivot\<close>, column \<open>anchor\<close>). A label
  outside the vocabulary is a \<open>KeyError\<close>.
\<close>

definition strength :: "co_df \<Rightarrow> int \<Rightarrow> int \<Rightarrow> error + rat" where
  "strength df a b =
     (if a \<in> set (kod df) \<and> b \<in> set (kod df) then Inr (cell df a b) else Inl KeyError)"

section \<open>Collaborators and tables\<close>

text \<open>
  The language-model calls, the vector store, \<open>utils.get_vykony_per_diagnosis\<close> and the
  data loaded at import time are parameters of the graph. A language-model call gets the
  data its prompt is formatted from, and either raises or returns its structured output.
  \<open>similarity_search\<close> returns the \<open>code\<close> of each retrieved document, and
  \<open>co_occurrence\<close> is the module's table \<open>co_occurrence_df_normalized\<close>.
\<close>

record environment =
  llm_preprocess :: "string \<Rightarrow> error + MKN10Code list"
  llm_model :: "schema \<Rightarrow> MKN10Code list \<Rightarrow> string \<Rightarrow> error + vykon list"
  llm_validate ::
    "MKN10Code list \<Rightarrow> vykon list \<Rightarrow> string \<Rightarrow> vykon list \<Rightarrow> error + VykonAction list"
  similarity_search :: "string \<Rightarrow> int list"
  get_vykony_per_diagnosis :: "MKN10Code \<Rightarrow> vykon list"
  vykony_cis :: "vykon list"
  co_occurrence :: co_df

text \<open>
  Modelled from the spec: \<open>utils.find_vykon_by_code\<close> is not among the sources. The
  Reference Catalogs map a billing code to its entry \<open>{code, name, description}\<close>; the
  lookup returns the first entry of the billing-code catalog with that code, and Python's
  \<open>None\<close> when there is none.
\<close>

definition find_vykon_by_code :: "vykon list \<Rightarrow> int \<Rightarrow> vykon option" where
  "find_vykon_by_code catalog c = List.find (\<lambda>v. code v = c) catalog"

section \<open>The nodes of the graph\<close>

definition preprocess :: "environment \<Rightarrow> AgentState \<Rightarrow> error + AgentState" where
  "preprocess env state =
     (case llm_preprocess env (report state) of
        Inl e \<Rightarrow> Inl e
      | Inr codes \<Rightarrow> Inr (state\<lparr>preprocess_diagnosis := codes\<rparr>))"

definition suggested_vykony :: "environment \<Rightarrow> AgentState \<Rightarrow> vykon list" where
  "suggested_vykony env state =
     concat (map (get_vykony_per_diagnosis env) (preprocess_diagnosis state))"

definition model :: "environment \<Rightarrow> AgentState \<Rightarrow> error + AgentState" where
  "model env state =
     (case llm_model env (build_schema (suggested_vykony env state))
             (preprocess_diagnosis state) (report state) of
        Inl e \<Rightarrow> Inl e
      | Inr d \<Rightarrow> Inr (state\<lparr>diagnosis := d\<rparr>))"

definition validate :: "environment \<Rightarrow> AgentState \<Rightarrow> error + AgentState" where
  "validate env state =
     (case llm_validate env (preprocess_diagnosis state) (suggested_vykony env state)
             (report state) (diagnosis state) of
        Inl e \<Rightarrow> Inl e
      | Inr validation \<Rightarrow>
          Inr (state\<lparr>diagnosis := reconcile validation (diagnosis state),
                     validity := Some validation\<rparr>))"

subsection \<open>\<open>add_co_occurrence\<close>\<close>

text \<open>The literal of \<open>df["kod"].isin([42022, 9543])\<close>.\<close>

definition pivot_codes :: "int list" where
  "pivot_codes = [42022, 9543]"

text \<open>
  The body of the loop over the retrieved codes, up to \<open>df["kod"].tolist()\<close>:
  \<open>co_occurrence_df_normalized[["kod", code]]\<close> raises \<open>KeyError\<close> when \<open>code\<close> is not
  a column; then the rows are filtered twice and sorted by descending value.
\<close>

definition hits :: "co_df \<Rightarrow> int \<Rightarrow> error + int list" where
  "hits df c =
     (if c \<notin> set (kod df) then Inl KeyError
      else
        let rows = map (\<lambda>k. (k, cell df k c)) (kod df);
            rows = filter (\<lambda>r. fst r \<in> set pivot_codes) rows;
            rows = filter (\<lambda>r. 3 / 5 \<le> snd r) rows;
            rows = sort_key (\<lambda>r. - snd r) rows
        in Inr (map fst rows))"

fun to_add_loop :: "co_df \<Rightarrow> int list \<Rightarrow> int list \<Rightarrow> error + int list" where
  "to_add_loop df [] to_add_codes = Inr to_add_codes"
| "to_add_loop df (c # rest) to_add_codes =
     (case hits df c of
        Inl e \<Rightarrow> Inl e
      | Inr ks \<Rightarrow>
          to_add_loop df rest (if 0 < length ks then to_add_codes @ ks else to_add_codes))"

text \<open>
  \<open>set(to_add_codes)\<close>, as the list the \<open>for\<close> loop iterates. Every element of
  \<open>to_add_codes\<close> passed the \<open>isin\<close> filter, so the set is a subset of the two pivot
  codes. Python leaves the order of a set open; CPython visits 42022 (slot 6 of the
  eight-slot table) before 9543 (slot 7).
\<close>

definition py_set :: "int list \<Rightarrow> int list" where
  "py_set to_add_codes = filter (\<lambda>k. k \<in> set to_add_codes) pivot_codes"

text \<open>The last loop: \<open>if found_vykon := utils.find_vykon_by_code(code)\<close>.\<close>

fun append_found :: "vykon list \<Rightarrow> int list \<Rightarrow> vykon list \<Rightarrow> vykon list" where
  "append_found catalog [] new_vykony = new_vykony"
| "append_found catalog (c # rest) new_vykony =
     (case find_vykon_by_code catalog c of
        None \<Rightarrow> append_found catalog rest new_vykony
      | Some found_vykon \<Rightarrow> append_found catalog rest (new_vykony @ [found_vykon]))"

text \<open>
  \<open>docs = pd.DataFrame(docs)\<close> has no column at all when no document was retrieved,
  and \<open>docs["code"]\<close> raises \<open>KeyError\<close> then.
\<close>

definition add_co_occurrence :: "environment \<Rightarrow> AgentState \<Rightarrow> error + AgentState" where
  "add_co_occurrence env state =
     (let docs = similarity_search env (report state)
      in if docs = [] then Inl KeyError
         else
           (case to_add_loop (co_occurrence env) docs [] of
              Inl e \<Rightarrow> Inl e
            | Inr to_add_codes \<Rightarrow>
                Inr (state\<lparr>diagnosis :=
                  append_found (vykony_cis env) (py_set to_add_codes) (diagnosis state)\<rparr>)))"

subsection \<open>\<open>clear\<close>\<close>

text \<open>
  Lines 366 to 369: each record paired with its catalog entry; the pairs with an entry
  become the entry with the record's explanation.
\<close>

definition resolved :: "vykon list \<Rightarrow> vykon list \<Rightarrow> vykon list" where
  "resolved catalog vykony =
     List.map_filter
       (\<lambda>v. case find_vykon_by_code catalog (code v) of
              None \<Rightarrow> None
            | Some valid \<Rightarrow> Some (valid\<lparr>explanation := explanation v\<rparr>))
       vykony"

text \<open>
  Line 370: the dict comprehension \<open>{int(v["code"]): v for v in vykony}\<close> and its
  \<open>values()\<close>, in the dict's insertion order.
\<close>

definition dict_by_code :: "vykon list \<Rightarrow> (int \<times> vykon) list" where
  "dict_by_code vykony = fold (\<lambda>v d. AList.update (code v) v d) vykony []"

definition clear_vykony :: "vykon list \<Rightarrow> vykon list \<Rightarrow> vykon list" where
  "clear_vykony catalog vykony = map snd (dict_by_code (resolved catalog vykony))"

definition clear :: "environment \<Rightarrow> AgentState \<Rightarrow> AgentState" where
  "clear env state = state\<lparr>diagnosis := clear_vykony (vykony_cis env) (diagnosis state)\<rparr>"

subsection \<open>The graph\<close>

datatype node = N_preprocess | N_model | N_validate | N_clear | N_add_co_occurrence

text \<open>
  \<open>edge_chain\<close> without \<open>"__start__"\<close>: the nodes in the order the edges run them
  (\<open>"abbrev"\<close> is commented out in the source).
\<close>

definition edge_chain :: "node list" where
  "edge_chain = [N_preprocess, N_model, N_validate, N_clear, N_add_co_occurrence]"

fun run_node :: "environment \<Rightarrow> node \<Rightarrow> AgentState \<Rightarrow> error + AgentState" where
  "run_node env N_preprocess state = preprocess env state"
| "run_node env N_model state = model env state"
| "run_node env N_validate state = validate env state"
| "run_node env N_clear state = Inr (clear env state)"
| "run_node env N_add_co_occurrence state = add_co_occurrence env state"

text \<open>An exception in a node aborts the run.\<close>

fun run_chain :: "environment \<Rightarrow> node list \<Rightarrow> AgentState \<Rightarrow> error + AgentState" where
  "run_chain env [] state = Inr state"
| "run_chain env (n # ns) state =
     (case run_node env n state of
        Inl e \<Rightarrow> Inl e
      | Inr state' \<Rightarrow> run_chain env ns state')"

definition graph :: "environment \<Rightarrow> AgentState \<Rightarrow> error + AgentState" where
  "graph env state = run_chain env edge_chain state"

section \<open>Notions used in the statements\<close>

text \<open>
  The identity dedup as the specification words it, for comparison with \<open>clear\<close>: of
  the resolved records that share a code, exactly one is kept, in the position of the
  code's last occurrence.
\<close>

fun spec_identity_dedup :: "vykon list \<Rightarrow> vykon list" where
  "spec_identity_dedup [] = []"
| "spec_identity_dedup (v # vs) =
     (if code v \<in> code ` set vs then spec_identity_dedup vs else v # spec_identity_dedup vs)"

text \<open>
  A pivot code clears the threshold when its strength against some retrieved anchor code
  is at or above 0.6.
\<close>

definition clears_threshold :: "co_df \<Rightarrow> int list \<Rightarrow> int \<Rightarrow> bool" where
  "clears_threshold df docs p =
     (\<exists>a \<in> set docs. case strength df p a of Inl e \<Rightarrow> False | Inr x \<Rightarrow> 3 / 5 \<le> x)"

text \<open>The codes of a list in the order of their first occurrences.\<close>

definition first_occurrences :: "int list \<Rightarrow> int list" where
  "first_occurrences ks = rev (remdups (rev ks))"

section \<open>Concrete inputs\<close>

definition entry :: "int \<Rightarrow> string \<Rightarrow> vykon" where
  "entry c n = \<lparr>code = c, name = n, description = None, explanation = None\<rparr>"

definition catalog_ex :: "vykon list" where
  "catalog_ex =
     [entry 100 ''biopsy'', entry 9543 ''signal code'', entry 42022 ''oncology visit'']"

text \<open>A table in which \<open>strength(42022, 100)\<close> is 0.75 and \<open>strength(9543, 100)\<close> is 0.4.\<close>

definition df_ex :: co_df where
  "df_ex = \<lparr>kod = [100, 9543, 42022],
            cell = (\<lambda>p a. if p = 42022 \<and> a = 100 then 3 / 4
                          else if p = 9543 \<and> a = 100 then 2 / 5 else 0)\<rparr>"

text \<open>
  Three documents: document 1 bills the codes 1 and 2, documents 2 and 3 bill the codes
  2 and 3.
\<close>

definition vykony_ex :: vykony_table where
  "vykony_ex = [(1, 1), (1, 2), (2, 2), (2, 3), (3, 2), (3, 3)]"

text \<open>
  Collaborators for one run: the code selection picks 42022 when it is given a choice and
  fails on a schema without options, the validation keeps 42022, and the retrieval
  returns the single code 100.
\<close>

definition env_ex :: environment where
  "env_ex =
     \<lparr>llm_preprocess = (\<lambda>r. Inr [\<lparr>dg_code = ''C50'', dg_description = ''breast''\<rparr>]),
      llm_model = (\<lambda>sch dg r. if anyOf sch = [] then Inl CollaboratorFailure
                               else Inr [entry 42022 ''oncology visit'']),
      llm_validate = (\<lambda>dg expected r vs.
         Inr [\<lparr>va_code = 42022, va_explanation = ''documented'', va_action = Keep\<rparr>]),
      similarity_search = (\<lambda>r. [100]),
      get_vykony_per_diagnosis =
        (\<lambda>d. [entry 42022 ''oncology visit'', entry 9543 ''signal code'']),
      vykony_cis = catalog_ex,
      co_occurrence = df_ex\<rparr>"

definition env_no_docs :: environment where
  "env_no_docs = env_ex\<lparr>similarity_search := (\<lambda>r. [])\<rparr>"

definition state_ex :: AgentState where
  "state_ex =
     \<lparr>report = ''report'', preprocess_diagnosis = [], diagnosis = [], validity = None\<rparr>"

text \<open>
  A selection with code 100 twice, under names that differ from the catalog's, and with
  code 555, which the catalog does not have.
\<close>

definition dup_ex :: "vykon list" where
  "dup_ex =
     [(entry 100 ''punch biopsy'')\<lparr>explanation := Some ''first''\<rparr>,
      (entry 555 ''unknown'')\<lparr>explanation := Some ''kept by validation''\<rparr>,
      entry 9543 ''signal code'',
      (entry 100 ''biopsy of skin'')\<lparr>explanation := Some ''last''\<rparr>]"

definition verdicts_ex :: "VykonAction list" where
  "verdicts_ex =
     [\<lparr>va_code = 100, va_explanation = ''not performed'', va_action = Remove\<rparr>,
      \<lparr>va_code = 42022, va_explanation = ''documented'', va_action = Keep\<rparr>]"

section \<open>Properties of the reconciliation\<close>

lemma validate_loop_acc:
  "validate_loop vs xs acc = acc @ validate_loop vs xs []"
proof (induction xs arbitrary: acc)
  case Nil
  show ?case by simp
next
  case (Cons x xs)
  note ih = Cons.IH
  show ?case
  proof (cases "validity_of vs x")
    case None
    then show ?thesis
      using ih [of "acc @ [x\<lparr>explanation := None\<rparr>]"] ih [of "[x\<lparr>explanation := None\<rparr>]"]
      by simp
  next
    case (Some v)
    then show ?thesis
      using ih [of "acc @ [x\<lparr>explanation := Some (va_explanation v)\<rparr>]"]
        ih [of "[x\<lparr>explanation := Some (va_explanation v)\<rparr>]"] ih [of acc]
      by simp
  qed
qed

lemma reconcile_Nil: "reconcile vs [] = []"
  by (simp add: reconcile_def)

lemma reconcile_Cons:
  "reconcile vs (x # xs) =
     (case validity_of vs x of
        None \<Rightarrow> x\<lparr>explanation := None\<rparr> # reconcile vs xs
      | Some v \<Rightarrow>
          if va_action v \<noteq> Remove
          then x\<lparr>explanation := Some (va_explanation v)\<rparr> # reconcile vs xs
          else reconcile vs xs)"
proof (cases "validity_of vs x")
  case None
  then show ?thesis
    using validate_loop_acc [of vs xs "[x\<lparr>explanation := None\<rparr>]"]
    by (simp add: reconcile_def)
next
  case (Some v)
  then show ?thesis
    using validate_loop_acc [of vs xs "[x\<lparr>explanation := Some (va_explanation v)\<rparr>]"]
    by (simp add: reconcile_def)
qed

lemma validity_of_None: "(validity_of vs x = None) = (code x \<notin> va_code ` set vs)"
  by (auto simp: validity_of_def find_None_iff image_iff)

lemma validity_of_Some:
  "validity_of vs x = Some v \<Longrightarrow> v \<in> set vs \<and> va_code v = code x"
  by (auto simp: validity_of_def find_Some_iff)

lemma reconcile_no_verdict:
  "r \<in> set xs \<Longrightarrow> code r \<notin> va_code ` set vs \<Longrightarrow>
   r\<lparr>explanation := None\<rparr> \<in> set (reconcile vs xs)"
proof (induction xs)
  case Nil
  then show ?case by simp
next
  case (Cons x xs)
  show ?case
  proof (cases "r = x")
    case True
    with Cons.prems have "validity_of vs x = None"
      by (simp add: validity_of_None)
    with True show ?thesis by (simp add: reconcile_Cons)
  next
    case False
    with Cons have "r\<lparr>explanation := None\<rparr> \<in> set (reconcile vs xs)" by simp
    then show ?thesis
      by (simp add: reconcile_Cons split: option.split)
  qed
qed

lemma reconcile_kept:
  "r \<in> set xs \<Longrightarrow> \<not> (\<exists>v \<in> set vs. va_code v = code r \<and> va_action v = Remove) \<Longrightarrow>
   \<exists>e. r\<lparr>explanation := e\<rparr> \<in> set (reconcile vs xs)"
proof (induction xs)
  case Nil
  then show ?case by simp
next
  case (Cons x xs)
  show ?case
  proof (cases "r = x")
    case True
    show ?thesis
    proof (cases "validity_of vs x")
      case None
      with True show ?thesis by (auto simp: reconcile_Cons)
    next
      case (Some v)
      then have "v \<in> set vs" "va_code v = code r"
        using validity_of_Some [of vs x v] True by simp_all
      with Cons.prems(2) have "va_action v \<noteq> Remove" by blast
      with Some True show ?thesis by (auto simp: reconcile_Cons)
    qed
  next
    case False
    with Cons obtain e where "r\<lparr>explanation := e\<rparr> \<in> set (reconcile vs xs)" by auto
    then show ?thesis
      by (auto simp: reconcile_Cons split: option.split)
  qed
qed

lemma reconcile_explained:
  "r' \<in> set (reconcile vs xs) \<Longrightarrow>
   explanation r' = map_option va_explanation (validity_of vs r') \<and>
   (\<forall>v. validity_of vs r' = Some v \<longrightarrow> va_action v \<noteq> Remove)"
proof (induction xs)
  case Nil
  then show ?case by (simp add: reconcile_Nil)
next
  case (Cons x xs)
  show ?case
  proof (cases "r' \<in> set (reconcile vs xs)")
    case True
    with Cons.IH show ?thesis by simp
  next
    case False
    with Cons.prems show ?thesis
      by (auto simp: reconcile_Cons validity_of_def split: option.splits if_splits)
  qed
qed

text \<open>
  Claim C10. For every selection list and every verdict list, the list the validation
  stage returns is a subsequence of its input up to the \<open>explanation\<close> field: there
  is a subsequence \<open>ys\<close> of the input such that the output is \<open>ys\<close> position by
  position, each record differing from its input record in \<open>explanation\<close> at most. So
  no record is added and the kept records stay in their order.
\<close>

theorem validate_output_subsequence:
  "\<exists>ys. subseq ys xs \<and>
     list_all2 (\<lambda>out inp. \<exists>e. out = inp\<lparr>explanation := e\<rparr>) (reconcile vs xs) ys"
proof (induction xs)
  case Nil
  show ?case by (simp add: reconcile_Nil)
next
  case (Cons x xs)
  then obtain ys where ys: "subseq ys xs"
    "list_all2 (\<lambda>out inp. \<exists>e. out = inp\<lparr>explanation := e\<rparr>) (reconcile vs xs) ys"
    by blast
  show ?case
  proof (cases "reconcile vs (x # xs) = reconcile vs xs")
    case True
    from ys(1) have "subseq ys (x # xs)" by (rule list_emb_Cons)
    with ys(2) True show ?thesis by auto
  next
    case False
    then obtain e where "reconcile vs (x # xs) = x\<lparr>explanation := e\<rparr> # reconcile vs xs"
      by (auto simp: reconcile_Cons split: option.splits if_splits)
    with ys have "subseq (x # ys) (x # xs) \<and>
      list_all2 (\<lambda>out inp. \<exists>e. out = inp\<lparr>explanation := e\<rparr>) (reconcile vs (x # xs)) (x # ys)"
      by auto
    then show ?thesis by blast
  qed
qed

text \<open>
  Claim C6. Keep/remove reconciliation fails open. A record whose code has no verdict stays
  in the reconciled list, with \<open>explanation\<close> unset. A record none of whose copies
  (up to \<open>explanation\<close>) is in the reconciled list has a verdict with its code and the
  action \<open>remove\<close>. A record of the reconciled list carries the explanation of the
  first verdict with its code, and none when there is no such verdict.
\<close>

theorem reconcile_fail_open:
  "(r_unmatched \<in> set vykony \<and> code r_unmatched \<notin> va_code ` set validation \<longrightarrow>
      r_unmatched\<lparr>explanation := None\<rparr> \<in> set (reconcile validation vykony)) \<and>
   (r_dropped \<in> set vykony \<and>
      (\<forall>e. r_dropped\<lparr>explanation := e\<rparr> \<notin> set (reconcile validation vykony)) \<longrightarrow>
      (\<exists>v \<in> set validation. va_code v = code r_dropped \<and> va_action v = Remove)) \<and>
   (r_kept \<in> set (reconcile validation vykony) \<longrightarrow>
      explanation r_kept = map_option va_explanation (validity_of validation r_kept))"
proof (intro conjI impI)
  assume "r_unmatched \<in> set vykony \<and> code r_unmatched \<notin> va_code ` set validation"
  then show "r_unmatched\<lparr>explanation := None\<rparr> \<in> set (reconcile validation vykony)"
    by (simp add: reconcile_no_verdict)
next
  assume a: "r_dropped \<in> set vykony \<and>
    (\<forall>e. r_dropped\<lparr>explanation := e\<rparr> \<notin> set (reconcile validation vykony))"
  show "\<exists>v \<in> set validation. va_code v = code r_dropped \<and> va_action v = Remove"
  proof (rule ccontr)
    assume "\<not> (\<exists>v \<in> set validation. va_code v = code r_dropped \<and> va_action v = Remove)"
    with a obtain e where "r_dropped\<lparr>explanation := e\<rparr> \<in> set (reconcile validation vykony)"
      using reconcile_kept [of r_dropped vykony validation] by blast
    with a show False by blast
  qed
next
  assume "r_kept \<in> set (reconcile validation vykony)"
  then show "explanation r_kept = map_option va_explanation (validity_of validation r_kept)"
    by (simp add: reconcile_explained)
qed

text \<open>
  The theorem at a concrete input: 9543 has no verdict and is kept without explanation,
  100 is removed by its verdict, 42022 is kept with its verdict's explanation.
\<close>

theorem reconcile_fail_open_witness:
  "entry 9543 ''signal code'' \<in> set catalog_ex \<and>
   code (entry 9543 ''signal code'') \<notin> va_code ` set verdicts_ex \<and>
   (entry 9543 ''signal code'')\<lparr>explanation := None\<rparr> \<in> set (reconcile verdicts_ex catalog_ex) \<and>
   entry 100 ''biopsy'' \<in> set catalog_ex \<and>
   (\<forall>e. (entry 100 ''biopsy'')\<lparr>explanation := e\<rparr> \<notin> set (reconcile verdicts_ex catalog_ex)) \<and>
   (\<exists>v \<in> set verdicts_ex. va_code v = 100 \<and> va_action v = Remove) \<and>
   (entry 42022 ''oncology visit'')\<lparr>explanation := Some ''documented''\<rparr>
      \<in> set (reconcile verdicts_ex catalog_ex) \<and>
   map_option va_explanation
     (validity_of verdicts_ex ((entry 42022 ''oncology visit'')\<lparr>explanation := Some ''documented''\<rparr>))
     = Some ''documented''"
proof -
  have r: "reconcile verdicts_ex catalog_ex =
      [entry 9543 ''signal code'',
       (entry 42022 ''oncology visit'')\<lparr>explanation := Some ''documented''\<rparr>]"
    by code_simp
  have c: "code (entry 9543 ''signal code'') \<notin> va_code ` set verdicts_ex"
    by (simp add: entry_def verdicts_ex_def)
  have m: "entry 9543 ''signal code'' \<in> set catalog_ex" "entry 100 ''biopsy'' \<in> set catalog_ex"
    by (simp_all add: catalog_ex_def)
  have d: "\<forall>e. (entry 100 ''biopsy'')\<lparr>explanation := e\<rparr> \<notin> set (reconcile verdicts_ex catalog_ex)"
    by (simp add: r entry_def)
  have k: "(entry 42022 ''oncology visit'')\<lparr>explanation := Some ''documented''\<rparr>
      \<in> set (reconcile verdicts_ex catalog_ex)"
    by (simp add: r)
  from reconcile_fail_open [of "entry 9543 ''signal code''" catalog_ex verdicts_ex
      "entry 100 ''biopsy''"
      "(entry 42022 ''oncology visit'')\<lparr>explanation := Some ''documented''\<rparr>"]
    c m d k
  show ?thesis by (simp add: entry_def)
qed

section \<open>Properties of the identity dedup\<close>

lemma dict_by_code_snoc:
  "dict_by_code (xs @ [x]) = AList.update (code x) x (dict_by_code xs)"
  by (simp add: dict_by_code_def)

lemma dict_by_code_Nil: "dict_by_code [] = []"
  by (simp add: dict_by_code_def)

lemma first_occurrences_snoc:
  "first_occurrences (ks @ [k]) =
     (if k \<in> set ks then first_occurrences ks else first_occurrences ks @ [k])"
  by (simp add: first_occurrences_def)

lemma set_first_occurrences: "set (first_occurrences ks) = set ks"
  by (simp add: first_occurrences_def)

lemma keys_dict_by_code:
  "map fst (dict_by_code xs) = first_occurrences (map code xs)"
proof (induction xs rule: rev_induct)
  case Nil
  show ?case by (simp add: dict_by_code_Nil first_occurrences_def)
next
  case (snoc x xs)
  have "set (map fst (dict_by_code xs)) = code ` set xs"
    by (simp add: snoc.IH set_first_occurrences)
  then show ?case
    by (simp add: dict_by_code_snoc update_keys first_occurrences_snoc snoc.IH)
qed

lemma distinct_keys_dict_by_code: "distinct (map fst (dict_by_code xs))"
  by (simp add: keys_dict_by_code first_occurrences_def)

lemma map_of_dict_by_code:
  "map_of (dict_by_code xs) k =
     (if k \<in> code ` set xs then Some (last (filter (\<lambda>v. code v = k) xs)) else None)"
proof (induction xs rule: rev_induct)
  case Nil
  show ?case by (simp add: dict_by_code_Nil)
next
  case (snoc x xs)
  then show ?case
    by (auto simp: dict_by_code_snoc update_conv')
qed

lemma values_by_keys:
  "distinct (map fst al) \<Longrightarrow> map snd al = map (\<lambda>k. the (map_of al k)) (map fst al)"
proof -
  assume d: "distinct (map fst al)"
  have "map (\<lambda>k. the (map_of al k)) (map fst al) = map (\<lambda>p. the (map_of al (fst p))) al"
    by (simp add: comp_def)
  also have "\<dots> = map snd al"
  proof (rule map_cong)
    fix p assume "p \<in> set al"
    then have "(fst p, snd p) \<in> set al" by simp
    with d have "map_of al (fst p) = Some (snd p)" by (rule map_of_is_SomeI)
    then show "the (map_of al (fst p)) = snd p" by simp
  qed simp
  finally show ?thesis by simp
qed

lemma clear_vykony_resolved:
  "clear_vykony catalog vykony =
     map (\<lambda>k. last (filter (\<lambda>v. code v = k) (resolved catalog vykony)))
       (first_occurrences (map code (resolved catalog vykony)))"
proof -
  let ?R = "resolved catalog vykony"
  have "map snd (dict_by_code ?R) =
        map (\<lambda>k. the (map_of (dict_by_code ?R) k)) (map fst (dict_by_code ?R))"
    by (rule values_by_keys) (rule distinct_keys_dict_by_code)
  also have "\<dots> = map (\<lambda>k. the (map_of (dict_by_code ?R) k)) (first_occurrences (map code ?R))"
    by (simp add: keys_dict_by_code)
  also have "\<dots> = map (\<lambda>k. last (filter (\<lambda>v. code v = k) ?R)) (first_occurrences (map code ?R))"
    by (rule map_cong) (auto simp: map_of_dict_by_code set_first_occurrences)
  finally show ?thesis by (simp add: clear_vykony_def)
qed

lemma dict_by_code_entries:
  "(k, v) \<in> set (dict_by_code xs) \<Longrightarrow> v \<in> set xs \<and> code v = k"
proof -
  assume a: "(k, v) \<in> set (dict_by_code xs)"
  have "map_of (dict_by_code xs) k = Some v"
    using a distinct_keys_dict_by_code by (simp add: map_of_eq_Some_iff)
  then have k: "k \<in> code ` set xs" and v: "v = last (filter (\<lambda>v. code v = k) xs)"
    by (auto simp: map_of_dict_by_code split: if_splits)
  from k have ne: "filter (\<lambda>v. code v = k) xs \<noteq> []"
    by (auto simp: filter_empty_conv)
  then have "v \<in> set (filter (\<lambda>v. code v = k) xs)"
    unfolding v by (rule last_in_set)
  then show ?thesis by simp
qed

lemma codes_clear_vykony:
  "map code (clear_vykony catalog vykony) = map fst (dict_by_code (resolved catalog vykony))"
  by (auto simp: clear_vykony_def dest: dict_by_code_entries)

lemma distinct_clear_vykony: "distinct (map code (clear_vykony catalog vykony))"
  by (simp add: codes_clear_vykony distinct_keys_dict_by_code)

lemma set_clear_vykony: "set (clear_vykony catalog vykony) \<subseteq> set (resolved catalog vykony)"
  by (auto simp: clear_vykony_def dest: dict_by_code_entries)

lemma find_vykon_by_code_Some:
  "find_vykon_by_code catalog c = Some valid \<Longrightarrow> code valid = c \<and> valid \<in> set catalog"
  by (auto simp: find_vykon_by_code_def find_Some_iff)

lemma resolved_fixed:
  "r \<in> set (resolved catalog vykony) \<Longrightarrow>
   \<exists>valid. find_vykon_by_code catalog (code r) = Some valid \<and>
     r = valid\<lparr>explanation := explanation r\<rparr>"
proof (induction vykony)
  case Nil
  then show ?case by (simp add: resolved_def)
next
  case (Cons v vs)
  show ?case
  proof (cases "r \<in> set (resolved catalog vs)")
    case True
    then show ?thesis by (rule Cons.IH)
  next
    case False
    with Cons.prems obtain valid where f: "find_vykon_by_code catalog (code v) = Some valid"
      and r: "r = valid\<lparr>explanation := explanation v\<rparr>"
      by (auto simp: resolved_def split: option.splits)
    from f have "code valid = code v" by (simp add: find_vykon_by_code_Some)
    with f r show ?thesis by simp
  qed
qed

lemma resolved_id:
  "(\<And>r. r \<in> set ys \<Longrightarrow> \<exists>valid. find_vykon_by_code catalog (code r) = Some valid \<and>
     r = valid\<lparr>explanation := explanation r\<rparr>) \<Longrightarrow> resolved catalog ys = ys"
proof (induction ys)
  case Nil
  show ?case by (simp add: resolved_def)
next
  case (Cons y ys)
  have "resolved catalog ys = ys" by (rule Cons.IH) (simp add: Cons.prems)
  moreover obtain valid where "find_vykon_by_code catalog (code y) = Some valid"
    "y = valid\<lparr>explanation := explanation y\<rparr>"
    using Cons.prems [of y] by auto
  ultimately show ?case
    by (simp add: resolved_def)
qed

lemma update_fresh:
  "k \<notin> fst ` set al \<Longrightarrow> AList.update k v al = al @ [(k, v)]"
  by (induction al) auto

lemma dict_by_code_distinct:
  "distinct (map code ys) \<Longrightarrow> dict_by_code ys = map (\<lambda>v. (code v, v)) ys"
proof (induction ys rule: rev_induct)
  case Nil
  show ?case by (simp add: dict_by_code_Nil)
next
  case (snoc y ys)
  then have ih: "dict_by_code ys = map (\<lambda>v. (code v, v)) ys" and "code y \<notin> code ` set ys"
    by auto
  then show ?case
    by (simp add: dict_by_code_snoc update_fresh image_image)
qed

lemma codes_resolved:
  "map code (resolved catalog vykony) =
     filter (\<lambda>k. find_vykon_by_code catalog k \<noteq> None) (map code vykony)"
proof (induction vykony)
  case Nil
  show ?case by (simp add: resolved_def)
next
  case (Cons v vs)
  then have ih: "map code (resolved catalog vs) =
     filter (\<lambda>k. find_vykon_by_code catalog k \<noteq> None) (map code vs)" .
  show ?case
  proof (cases "find_vykon_by_code catalog (code v)")
    case None
    with ih show ?thesis by (simp add: resolved_def)
  next
    case (Some valid)
    then have "code valid = code v" by (simp add: find_vykon_by_code_Some)
    with Some ih show ?thesis by (simp add: resolved_def)
  qed
qed

lemma resolved_with_code:
  assumes "find_vykon_by_code catalog k = Some valid"
  shows "filter (\<lambda>r. code r = k) (resolved catalog vykony) =
         map (\<lambda>v. valid\<lparr>explanation := explanation v\<rparr>) (filter (\<lambda>v. code v = k) vykony)"
proof (induction vykony)
  case Nil
  show ?case by (simp add: resolved_def)
next
  case (Cons v vs)
  then have ih: "filter (\<lambda>r. code r = k) (resolved catalog vs) =
         map (\<lambda>v. valid\<lparr>explanation := explanation v\<rparr>) (filter (\<lambda>v. code v = k) vs)" .
  from assms have cv: "code valid = k" by (simp add: find_vykon_by_code_Some)
  show ?case
  proof (cases "find_vykon_by_code catalog (code v)")
    case None
    with assms have "code v \<noteq> k" by auto
    with None ih show ?thesis by (simp add: resolved_def)
  next
    case (Some valid')
    then have c': "code valid' = code v" by (simp add: find_vykon_by_code_Some)
    show ?thesis
    proof (cases "code v = k")
      case True
      with Some assms have "valid' = valid" by simp
      with True Some ih cv show ?thesis by (simp add: resolved_def)
    next
      case False
      with Some ih c' show ?thesis by (simp add: resolved_def)
    qed
  qed
qed

lemma first_occurrences_filter:
  "first_occurrences (filter P ks) = filter P (first_occurrences ks)"
  by (simp add: first_occurrences_def rev_filter remdups_filter)

text \<open>
  Claim C7, as amended. The identity dedup resolves each record's code against the
  billing-code catalog and silently drops every record whose code does not resolve. Of
  the records that resolve it keeps exactly one per code: the catalog entry of the code,
  carrying the explanation of the last record of the input list with that code, placed
  at the position of the code's first occurrence in the input list. So the output is
  the list of the distinct codes of the input in the order of their first occurrences,
  without the codes that do not resolve, each replaced by that record.
\<close>

theorem clear_keeps_last_at_first_position:
  "clear_vykony catalog vykony =
     List.map_filter
       (\<lambda>k. case find_vykon_by_code catalog k of
              None \<Rightarrow> None
            | Some valid \<Rightarrow>
                Some (valid\<lparr>explanation :=
                  explanation (last (filter (\<lambda>v. code v = k) vykony))\<rparr>))
       (first_occurrences (map code vykony)) \<and>
   map code (clear_vykony catalog vykony) =
     filter (\<lambda>k. find_vykon_by_code catalog k \<noteq> None) (first_occurrences (map code vykony)) \<and>
   distinct (map code (clear_vykony catalog vykony))"
proof -
  let ?R = "resolved catalog vykony"
  let ?P = "\<lambda>k. find_vykon_by_code catalog k \<noteq> None"
  let ?F = "\<lambda>k. case find_vykon_by_code catalog k of
              None \<Rightarrow> None
            | Some valid \<Rightarrow>
                Some (valid\<lparr>explanation :=
                  explanation (last (filter (\<lambda>v. code v = k) vykony))\<rparr>)"
  let ?ks = "first_occurrences (map code vykony)"
  have keys: "first_occurrences (map code ?R) = filter ?P ?ks"
    by (simp add: codes_resolved first_occurrences_filter)
  have "clear_vykony catalog vykony =
        map (\<lambda>k. last (filter (\<lambda>v. code v = k) ?R)) (filter ?P ?ks)"
    by (simp add: clear_vykony_resolved keys)
  also have "\<dots> = map (the \<circ> ?F) (filter ?P ?ks)"
  proof (rule map_cong)
    fix k assume "k \<in> set (filter ?P ?ks)"
    then have kin: "k \<in> code ` set vykony" and "?P k"
      by (simp_all add: set_first_occurrences)
    then obtain valid where f: "find_vykon_by_code catalog k = Some valid" by auto
    from kin have ne: "filter (\<lambda>v. code v = k) vykony \<noteq> []"
      by (auto simp: filter_empty_conv)
    have "last (filter (\<lambda>v. code v = k) ?R) =
          valid\<lparr>explanation := explanation (last (filter (\<lambda>v. code v = k) vykony))\<rparr>"
      by (simp add: resolved_with_code [OF f] last_map ne)
    with f show "last (filter (\<lambda>v. code v = k) ?R) = (the \<circ> ?F) k" by simp
  qed simp
  also have "\<dots> = List.map_filter ?F ?ks"
  proof -
    have fe: "filter ?P ?ks = filter (\<lambda>k. ?F k \<noteq> None) ?ks"
      by (rule filter_cong) (auto split: option.splits)
    show ?thesis unfolding map_filter_def fe by (rule refl)
  qed
  finally have eq: "clear_vykony catalog vykony = List.map_filter ?F ?ks" .
  have "map code (clear_vykony catalog vykony) = first_occurrences (map code ?R)"
    by (simp add: codes_clear_vykony keys_dict_by_code)
  then have codes: "map code (clear_vykony catalog vykony) = filter ?P ?ks"
    by (simp add: keys)
  from eq codes distinct_clear_vykony [of catalog vykony] show ?thesis by simp
qed

text \<open>
  The claim as stated fails. Code 555 does not resolve and is dropped, and of the two
  records with code 100 the dedup keeps the catalog entry with the last explanation, but
  in the place of the first, before 9543, where the spec's wording puts it after.
\<close>

theorem clear_position_counterexample:
  "clear_vykony catalog_ex dup_ex =
     [(entry 100 ''biopsy'')\<lparr>explanation := Some ''last''\<rparr>, entry 9543 ''signal code''] \<and>
   spec_identity_dedup (resolved catalog_ex dup_ex) =
     [entry 9543 ''signal code'', (entry 100 ''biopsy'')\<lparr>explanation := Some ''last''\<rparr>]"
  by code_simp

text \<open>
  The amended statement at the same input: the codes of the input are 100, 555, 9543, 100;
  the output holds 100 and 9543 in this order, as catalog entries.
\<close>

theorem clear_keeps_last_at_first_position_witness:
  "map code dup_ex = [100, 555, 9543, 100] \<and>
   find_vykon_by_code catalog_ex 555 = None \<and>
   clear_vykony catalog_ex dup_ex =
     [(entry 100 ''biopsy'')\<lparr>explanation := Some ''last''\<rparr>, entry 9543 ''signal code''] \<and>
   map code (clear_vykony catalog_ex dup_ex) = [100, 9543]"
proof -
  have i: "map code dup_ex = [100, 555, 9543, 100]"
    "find_vykon_by_code catalog_ex 555 = None"
    by code_simp+
  have r: "List.map_filter
       (\<lambda>k. case find_vykon_by_code catalog_ex k of
              None \<Rightarrow> None
            | Some valid \<Rightarrow>
                Some (valid\<lparr>explanation :=
                  explanation (last (filter (\<lambda>v. code v = k) dup_ex))\<rparr>))
       (first_occurrences (map code dup_ex)) =
     [(entry 100 ''biopsy'')\<lparr>explanation := Some ''last''\<rparr>, entry 9543 ''signal code'']"
    by code_simp
  have c: "code ((entry 100 ''biopsy'')\<lparr>explanation := Some ''last''\<rparr>) = 100"
    "code (entry 9543 ''signal code'') = 9543"
    by (simp_all add: entry_def)
  from clear_keeps_last_at_first_position [of catalog_ex dup_ex] i r c
  show ?thesis by simp
qed

text \<open>
  Claim C8. The identity dedup is idempotent: for every catalog and every list of
  records, running it on its own output changes nothing.
\<close>

theorem clear_idempotent:
  "clear_vykony catalog (clear_vykony catalog vykony) = clear_vykony catalog vykony"
proof -
  let ?out = "clear_vykony catalog vykony"
  have "resolved catalog ?out = ?out"
  proof (rule resolved_id)
    fix r assume "r \<in> set ?out"
    then have "r \<in> set (resolved catalog vykony)" using set_clear_vykony by blast
    then show "\<exists>valid. find_vykon_by_code catalog (code r) = Some valid \<and>
      r = valid\<lparr>explanation := explanation r\<rparr>" by (rule resolved_fixed)
  qed
  moreover have "dict_by_code ?out = map (\<lambda>v. (code v, v)) ?out"
    by (rule dict_by_code_distinct) (rule distinct_clear_vykony)
  ultimately have "clear_vykony catalog ?out = map snd (map (\<lambda>v. (code v, v)) ?out)"
    by (simp add: clear_vykony_def)
  then show ?thesis by (simp add: comp_def)
qed

section \<open>Properties of the schema\<close>

lemma reduce_step_fst:
  "fst (reduce_step item st) =
     AList.update (code item)
       (snd (snd (add_code (code item) (name item) (description item) (snd st)))) (fst st)"
  by (simp add: reduce_step_def add_code_def)

lemma reduce_step_snd: "snd (reduce_step item st) = snd st @ [code item]"
  by (simp add: reduce_step_def add_code_def)

lemma anyOf_build_schema: "anyOf (build_schema cands) = map code cands"
proof -
  have "snd (fold reduce_step cands ([], [])) = map code cands"
    by (induction cands rule: rev_induct) (simp_all add: reduce_step_snd)
  then show ?thesis by (simp add: build_schema_def Let_def)
qed

lemma definitions_build_schema:
  "map_of (definitions (build_schema cands)) k = Some d \<Longrightarrow>
   const_code d = k \<and> ''code'' \<in> set (required d) \<and> k \<in> code ` set cands"
proof -
  have "map_of (fst (fold reduce_step cands ([], []))) k = Some d \<Longrightarrow>
    const_code d = k \<and> ''code'' \<in> set (required d) \<and> k \<in> code ` set cands"
  proof (induction cands arbitrary: d rule: rev_induct)
    case Nil
    then show ?case by simp
  next
    case (snoc c cands)
    show ?case
    proof (cases "k = code c")
      case True
      with snoc.prems show ?thesis
        by (simp add: reduce_step_fst update_conv' add_code_def split: if_splits) auto
    next
      case False
      with snoc.prems have "map_of (fst (fold reduce_step cands ([], []))) k = Some d"
        by (simp add: reduce_step_fst update_conv')
      then show ?thesis using snoc.IH by simp
    qed
  qed
  then show "map_of (definitions (build_schema cands)) k = Some d \<Longrightarrow>
   const_code d = k \<and> ''code'' \<in> set (required d) \<and> k \<in> code ` set cands"
    by (simp add: build_schema_def Let_def)
qed

lemma valid_def_code:
  "valid_def d item \<Longrightarrow> ''code'' \<in> set (required d) \<Longrightarrow>
   \<exists>fields. item = JObj fields \<and> map_of fields ''code'' = Some (JInt (const_code d))"
  by (cases item) (auto simp: valid_def_def list_all_iff split: option.splits)

text \<open>
  Claim C9. Schema containment: whatever the candidates, every item of the \<open>vykony\<close>
  array of an instance the built schema accepts is an object whose \<open>code\<close> is the code
  of one of the candidates. No code outside the candidate set validates.
\<close>

theorem schema_containment:
  assumes "schema_accepts (build_schema candidates) (JObj kvs)"
    and "map_of kvs ''vykony'' = Some (JArr items)"
    and "item \<in> set items"
  shows "\<exists>c \<in> set candidates. \<exists>fields.
           item = JObj fields \<and> map_of fields ''code'' = Some (JInt (code c))"
proof -
  from assms have "valid_item (build_schema candidates) item"
    by (simp add: schema_accepts_def list_all_iff)
  then obtain r d where "map_of (definitions (build_schema candidates)) r = Some d"
    and v: "valid_def d item"
    by (auto simp: valid_item_def list_ex_iff split: option.splits)
  then have d: "const_code d = r" "''code'' \<in> set (required d)" "r \<in> code ` set candidates"
    using definitions_build_schema by blast+
  from valid_def_code [OF v d(2)] d(1) d(3) show ?thesis by auto
qed

lemma build_schema_Nil: "build_schema [] = \<lparr>definitions = [], anyOf = [], minItems = 1\<rparr>"
  by (simp add: build_schema_def)

text \<open>
  Claim C4, as amended. With an empty candidate set the code-selection stage is not
  skipped. It builds the schema with no definition and no option and calls the
  code-selection collaborator with it; the stage returns what the collaborator returns,
  its selection or its failure. That schema accepts an object only when the object has no
  \<open>vykony\<close> property, so no selection validates against it.
\<close>

theorem model_empty_candidates:
  assumes "suggested_vykony env state = []"
  shows "model env state =
           (case llm_model env \<lparr>definitions = [], anyOf = [], minItems = 1\<rparr>
                   (preprocess_diagnosis state) (report state) of
              Inl e \<Rightarrow> Inl e
            | Inr d \<Rightarrow> Inr (state\<lparr>diagnosis := d\<rparr>))
         \<and> schema_accepts (build_schema (suggested_vykony env state)) (JObj kvs) =
             (map_of kvs ''vykony'' = None)"
proof -
  have "schema_accepts (build_schema []) (JObj kvs) = (map_of kvs ''vykony'' = None)"
  proof (cases "map_of kvs ''vykony''")
    case None
    then show ?thesis by (simp add: schema_accepts_def)
  next
    case (Some v)
    then show ?thesis
      by (cases v) (auto simp: schema_accepts_def build_schema_Nil valid_item_def list_all_iff
          Suc_le_eq)
  qed
  with assms show ?thesis by (simp add: model_def build_schema_Nil)
qed

text \<open>The containment theorem at an accepted instance that selects code 100.\<close>

theorem schema_containment_witness:
  "schema_accepts (build_schema catalog_ex)
     (JObj [(''vykony'', JArr [JObj [(''code'', JInt 100), (''name'', JStr ''biopsy'')]])]) \<and>
   (\<exists>c \<in> set catalog_ex. \<exists>fields.
      JObj [(''code'', JInt 100), (''name'', JStr ''biopsy'')] = JObj fields \<and>
      map_of fields ''code'' = Some (JInt (code c)))"
proof -
  have a: "schema_accepts (build_schema catalog_ex)
     (JObj [(''vykony'', JArr [JObj [(''code'', JInt 100), (''name'', JStr ''biopsy'')]])])"
    by code_simp
  from schema_containment [OF a, of "[JObj [(''code'', JInt 100), (''name'', JStr ''biopsy'')]]"
      "JObj [(''code'', JInt 100), (''name'', JStr ''biopsy'')]"] a
  show ?thesis by simp
qed

text \<open>
  The claim as stated fails: with no diagnosis there is no candidate, the stage still
  builds the schema without options and calls the collaborator, and the run fails with
  the collaborator instead of yielding an empty selection.
\<close>

theorem model_empty_candidates_counterexample:
  "suggested_vykony env_ex state_ex = [] \<and>
   build_schema (suggested_vykony env_ex state_ex) =
     \<lparr>definitions = [], anyOf = [], minItems = 1\<rparr> \<and>
   model env_ex state_ex = Inl CollaboratorFailure \<and>
   model env_ex state_ex \<noteq> Inr (state_ex\<lparr>diagnosis := []\<rparr>)"
  by code_simp

text \<open>The amended statement at the same input.\<close>

theorem model_empty_candidates_witness:
  "suggested_vykony env_ex state_ex = [] \<and>
   model env_ex state_ex = Inl CollaboratorFailure \<and>
   schema_accepts (build_schema (suggested_vykony env_ex state_ex)) (JObj []) \<and>
   \<not> schema_accepts (build_schema (suggested_vykony env_ex state_ex))
       (JObj [(''vykony'', JArr [])])"
proof -
  have a: "suggested_vykony env_ex state_ex = []"
    by code_simp
  have l: "llm_model env_ex \<lparr>definitions = [], anyOf = [], minItems = 1\<rparr>
      (preprocess_diagnosis state_ex) (report state_ex) = Inl CollaboratorFailure"
    by (simp add: env_ex_def)
  from model_empty_candidates [OF a, of "[]"]
    model_empty_candidates [OF a, of "[(''vykony'', JArr [])]"] a l
  show ?thesis by simp
qed

section \<open>Properties of the co-occurrence model\<close>

lemma set_pivot_columns: "set (pivot_columns vykony) = snd ` set vykony"
  by (simp add: pivot_columns_def)

lemma vykony_pivot_nonneg: "0 \<le> vykony_pivot vykony d k"
  by (simp add: vykony_pivot_def)

lemma co_occurrence_matrix_sym:
  "co_occurrence_matrix vykony a b = co_occurrence_matrix vykony b a"
  by (simp add: co_occurrence_matrix_def mult.commute)

lemma co_occurrence_matrix_nonneg: "0 \<le> co_occurrence_matrix vykony a b"
  by (auto simp: co_occurrence_matrix_def vykony_pivot_nonneg intro!: sum_list_nonneg)

lemma co_occurrence_matrix_diag: "co_occurrence_matrix vykony a a = 0"
  by (simp add: co_occurrence_matrix_def)

lemma column_min_zero:
  assumes "b \<in> set (pivot_columns vykony)"
  shows "column_min vykony b = 0"
proof -
  let ?S = "set (map (\<lambda>a. co_occurrence_matrix vykony a b) (pivot_columns vykony))"
  have "co_occurrence_matrix vykony b b \<in> ?S"
    using assms by (simp add: image_iff) blast
  then have "0 \<in> ?S" by (simp only: co_occurrence_matrix_diag)
  moreover have "\<And>y. y \<in> ?S \<Longrightarrow> 0 \<le> y"
    by (auto simp: co_occurrence_matrix_nonneg)
  ultimately have "Min ?S = 0"
    by (intro Min_eqI) auto
  then show ?thesis by (simp only: column_min_def)
qed

lemma normalized_cell_eq:
  assumes "b \<in> set (pivot_columns vykony)"
  shows "normalized_cell vykony a b =
           (if column_max vykony b = 0 then 0
            else of_int (co_occurrence_matrix vykony a b) / of_int (column_max vykony b))"
  using column_min_zero [OF assms] by (simp add: normalized_cell_def)

text \<open>
  Claim C2, as amended. In the built co-occurrence model \<open>strength(a, a)\<close> is 0 for
  every code of the vocabulary. Each column is normalised with its own minimum and
  maximum, so \<open>strength(a, b) = strength(b, a)\<close> holds for the pairs of the vocabulary
  whose two columns have the same maximum count, not for every pair.
\<close>

theorem co_occurrence_diagonal_and_symmetry:
  fixes vykony :: vykony_table
  defines "df \<equiv> co_occurrence_df_normalized vykony"
  shows "(a \<in> set (kod df) \<longrightarrow> strength df a a = Inr 0) \<and>
         (a \<in> set (kod df) \<and> b \<in> set (kod df) \<and> column_max vykony a = column_max vykony b \<longrightarrow>
            strength df a b = strength df b a)"
proof (intro conjI impI)
  assume "a \<in> set (kod df)"
  then have a: "a \<in> set (pivot_columns vykony)"
    by (simp add: df_def co_occurrence_df_normalized_def)
  then show "strength df a a = Inr 0"
    by (simp add: df_def co_occurrence_df_normalized_def strength_def normalized_cell_eq
        co_occurrence_matrix_diag)
next
  assume "a \<in> set (kod df) \<and> b \<in> set (kod df) \<and> column_max vykony a = column_max vykony b"
  then have a: "a \<in> set (pivot_columns vykony)" and b: "b \<in> set (pivot_columns vykony)"
    and m: "column_max vykony a = column_max vykony b"
    by (simp_all add: df_def co_occurrence_df_normalized_def)
  have "normalized_cell vykony a b = normalized_cell vykony b a"
    using m by (simp add: normalized_cell_eq [OF a] normalized_cell_eq [OF b]
        co_occurrence_matrix_sym [of vykony a b])
  with a b show "strength df a b = strength df b a"
    by (simp add: df_def co_occurrence_df_normalized_def strength_def)
qed

text \<open>
  The claim as stated fails: codes 1 and 2 occur together once; column 2 has maximum 2
  and column 1 has maximum 1, so the two strengths are 0.5 and 1.
\<close>

theorem co_occurrence_symmetry_counterexample:
  "strength (co_occurrence_df_normalized vykony_ex) 1 2 = Inr (1 / 2) \<and>
   strength (co_occurrence_df_normalized vykony_ex) 2 1 = Inr 1"
  by code_simp

text \<open>The amended statement at codes 2 and 3, whose columns both have maximum 2.\<close>

theorem co_occurrence_diagonal_and_symmetry_witness:
  "2 \<in> set (kod (co_occurrence_df_normalized vykony_ex)) \<and>
   3 \<in> set (kod (co_occurrence_df_normalized vykony_ex)) \<and>
   column_max vykony_ex 2 = column_max vykony_ex 3 \<and>
   strength (co_occurrence_df_normalized vykony_ex) 2 2 = Inr 0 \<and>
   strength (co_occurrence_df_normalized vykony_ex) 2 3 =
     strength (co_occurrence_df_normalized vykony_ex) 3 2"
proof -
  have k: "2 \<in> set (kod (co_occurrence_df_normalized vykony_ex))"
    "3 \<in> set (kod (co_occurrence_df_normalized vykony_ex))"
    by code_simp+
  have m: "column_max vykony_ex 2 = column_max vykony_ex 3"
    by code_simp
  from co_occurrence_diagonal_and_symmetry [of 2 vykony_ex 3] k m
  show ?thesis by simp
qed


section \<open>Properties of the augmentation stage\<close>

lemma hits_set:
  "hits df c = Inr ks \<Longrightarrow>
   set ks = {p \<in> set (kod df). p \<in> set pivot_codes \<and> 3 / 5 \<le> cell df p c}"
  by (auto simp: hits_def Let_def image_iff split: if_splits)

lemma to_add_loop_set:
  "to_add_loop df docs acc = Inr ks \<Longrightarrow>
   set ks = set acc \<union>
     {p \<in> set (kod df). p \<in> set pivot_codes \<and> (\<exists>a \<in> set docs. 3 / 5 \<le> cell df p a)}"
proof (induction docs arbitrary: acc)
  case Nil
  then show ?case by auto
next
  case (Cons c docs)
  from Cons.prems obtain hs where h: "hits df c = Inr hs"
    and l: "to_add_loop df docs (if 0 < length hs then acc @ hs else acc) = Inr ks"
    by (auto split: sum.splits)
  have "set (if 0 < length hs then acc @ hs else acc) = set acc \<union> set hs" by auto
  with Cons.IH [OF l] have "set ks = set acc \<union> set hs \<union>
     {p \<in> set (kod df). p \<in> set pivot_codes \<and> (\<exists>a \<in> set docs. 3 / 5 \<le> cell df p a)}"
    by simp
  with hits_set [OF h] show ?case by auto
qed

lemma append_found_eq:
  "append_found catalog ks acc = acc @ List.map_filter (find_vykon_by_code catalog) ks"
  by (induction ks arbitrary: acc) (auto split: option.splits)

lemma add_co_occurrence_result:
  assumes "add_co_occurrence env state = Inr state'"
  shows "state' = state\<lparr>diagnosis := diagnosis state @
           List.map_filter (find_vykon_by_code (vykony_cis env))
             (filter (\<lambda>p. p \<in> set (kod (co_occurrence env)) \<and>
                 (\<exists>a \<in> set (similarity_search env (report state)).
                    3 / 5 \<le> cell (co_occurrence env) p a))
               pivot_codes)\<rparr>"
proof -
  let ?docs = "similarity_search env (report state)"
  from assms obtain ks where l: "to_add_loop (co_occurrence env) ?docs [] = Inr ks"
    and s: "state' = state\<lparr>diagnosis :=
       append_found (vykony_cis env) (py_set ks) (diagnosis state)\<rparr>"
    by (auto simp: add_co_occurrence_def Let_def split: if_splits sum.splits)
  have "py_set ks = filter (\<lambda>p. p \<in> set (kod (co_occurrence env)) \<and>
           (\<exists>a \<in> set ?docs. 3 / 5 \<le> cell (co_occurrence env) p a)) pivot_codes"
    unfolding py_set_def to_add_loop_set [OF l] by (rule filter_cong) auto
  with s show ?thesis by (simp add: append_found_eq)
qed

lemma add_co_occurrence_no_docs:
  "similarity_search env (report state) = [] \<Longrightarrow> add_co_occurrence env state = Inl KeyError"
  by (simp add: add_co_occurrence_def)

lemma to_add_loop_cases:
  "(set docs \<subseteq> set (kod df) \<longrightarrow> (\<exists>ks. to_add_loop df docs acc = Inr ks)) \<and>
   (\<not> set docs \<subseteq> set (kod df) \<longrightarrow> to_add_loop df docs acc = Inl KeyError)"
proof (induction docs arbitrary: acc)
  case Nil
  show ?case by simp
next
  case (Cons c docs)
  show ?case
  proof (cases "c \<in> set (kod df)")
    case True
    then obtain hs where "hits df c = Inr hs"
      by (simp add: hits_def Let_def)
    then show ?thesis
      using True Cons.IH [of "if 0 < length hs then acc @ hs else acc"] by simp
  next
    case False
    then have "hits df c = Inl KeyError" by (simp add: hits_def)
    with False show ?thesis by simp
  qed
qed

lemma codes_found:
  "map code (List.map_filter (find_vykon_by_code catalog) ps) =
     filter (\<lambda>p. find_vykon_by_code catalog p \<noteq> None) ps"
  by (induction ps) (auto split: option.splits dest: find_vykon_by_code_Some)

text \<open>
  Claim C3, as amended. When at least one document is retrieved and every retrieved code
  is a column of the co-occurrence table, the augmentation stage completes and appends to
  the selection list the catalog records of the pivot codes, of 42022 and 9543 in this
  order, whose strength against some retrieved anchor code is at or above 0.6, each once
  and whether or not the code is already selected. The codes it appends are exactly the
  pivot codes that clear the threshold and resolve in the catalog. So a pivot code whose
  strength with every retrieved anchor is below 0.6 is not added, and a retrieved anchor
  code is added only when it is itself such a pivot code.
\<close>

theorem add_co_occurrence_adds_pivots:
  assumes "similarity_search env (report state) \<noteq> []"
    and "set (similarity_search env (report state)) \<subseteq> set (kod (co_occurrence env))"
  shows "add_co_occurrence env state =
     Inr (state\<lparr>diagnosis := diagnosis state @
       List.map_filter (find_vykon_by_code (vykony_cis env))
         (filter (clears_threshold (co_occurrence env) (similarity_search env (report state)))
            pivot_codes)\<rparr>) \<and>
   map code (List.map_filter (find_vykon_by_code (vykony_cis env))
         (filter (clears_threshold (co_occurrence env) (similarity_search env (report state)))
            pivot_codes)) =
     filter (\<lambda>p. clears_threshold (co_occurrence env) (similarity_search env (report state)) p \<and>
                 find_vykon_by_code (vykony_cis env) p \<noteq> None)
       pivot_codes"
proof -
  let ?docs = "similarity_search env (report state)"
  let ?df = "co_occurrence env"
  from assms(2) obtain ks where "to_add_loop ?df ?docs [] = Inr ks"
    using to_add_loop_cases [of ?docs ?df "[]"] by blast
  with assms(1) obtain state' where r: "add_co_occurrence env state = Inr state'"
    by (simp add: add_co_occurrence_def Let_def)
  have "filter (clears_threshold ?df ?docs) pivot_codes =
        filter (\<lambda>p. p \<in> set (kod ?df) \<and> (\<exists>a \<in> set ?docs. 3 / 5 \<le> cell ?df p a)) pivot_codes"
    using assms(2) by (intro filter_cong refl) (auto simp: strength_def clears_threshold_def)
  with add_co_occurrence_result [OF r] r have "add_co_occurrence env state =
     Inr (state\<lparr>diagnosis := diagnosis state @
       List.map_filter (find_vykon_by_code (vykony_cis env))
         (filter (clears_threshold ?df ?docs) pivot_codes)\<rparr>)"
    by simp
  moreover have "map code (List.map_filter (find_vykon_by_code (vykony_cis env))
         (filter (clears_threshold ?df ?docs) pivot_codes)) =
     filter (\<lambda>p. clears_threshold ?df ?docs p \<and> find_vykon_by_code (vykony_cis env) p \<noteq> None)
       pivot_codes"
    unfolding codes_found by (simp add: conj_commute)
  ultimately show ?thesis by (rule conjI)
qed

text \<open>
  The claim as stated fails: \<open>strength(42022, 100)\<close> is 0.75, the anchor 100 is in the
  catalog and not yet selected, and the stage appends 42022, not 100.
\<close>

theorem add_co_occurrence_anchor_counterexample:
  "similarity_search env_ex (report state_ex) = [100] \<and>
   strength (co_occurrence env_ex) 42022 100 = Inr (3 / 4) \<and>
   find_vykon_by_code (vykony_cis env_ex) 100 = Some (entry 100 ''biopsy'') \<and>
   diagnosis state_ex = [] \<and>
   add_co_occurrence env_ex state_ex =
     Inr (state_ex\<lparr>diagnosis := [entry 42022 ''oncology visit'']\<rparr>)"
  by code_simp

text \<open>
  Claim C5 at a retrieval that returns no document: the stage does not complete, it
  raises \<open>KeyError\<close>.
\<close>

theorem add_co_occurrence_no_docs_fails:
  "similarity_search env_no_docs (report state_ex) = [] \<and>
   add_co_occurrence env_no_docs state_ex = Inl KeyError"
  by code_simp

text \<open>
  The amended statement at the example run: \<open>strength(42022, 100) = 0.75\<close> appends
  42022, \<open>strength(9543, 100) = 0.4\<close> appends nothing, and the anchor 100 is not
  appended.
\<close>

theorem add_co_occurrence_adds_pivots_witness:
  "similarity_search env_ex (report state_ex) \<noteq> [] \<and>
   set (similarity_search env_ex (report state_ex)) \<subseteq> set (kod (co_occurrence env_ex)) \<and>
   strength (co_occurrence env_ex) 42022 100 = Inr (3 / 4) \<and>
   strength (co_occurrence env_ex) 9543 100 = Inr (2 / 5) \<and>
   add_co_occurrence env_ex state_ex =
     Inr (state_ex\<lparr>diagnosis := [entry 42022 ''oncology visit'']\<rparr>)"
proof -
  have s: "strength (co_occurrence env_ex) 42022 100 = Inr (3 / 4)"
    "strength (co_occurrence env_ex) 9543 100 = Inr (2 / 5)"
    by code_simp+
  have d: "similarity_search env_ex (report state_ex) = [100]"
    "kod (co_occurrence env_ex) = [100, 9543, 42022]" "diagnosis state_ex = []"
    by code_simp+
  have f: "find_vykon_by_code (vykony_cis env_ex) 42022 = Some (entry 42022 ''oncology visit'')"
    by code_simp
  have n: "similarity_search env_ex (report state_ex) \<noteq> []"
    and u: "set (similarity_search env_ex (report state_ex)) \<subseteq> set (kod (co_occurrence env_ex))"
    by (simp_all add: d)
  from add_co_occurrence_adds_pivots [OF n u] s d f
  show ?thesis by (simp add: pivot_codes_def clears_threshold_def)
qed

text \<open>
  A retrieved anchor that is itself a pivot: documents retrieve 9543 and 42022, whose
  mutual strength is 1, and the stage appends both.
\<close>

lemma add_co_occurrence_pivot_anchors:
  "add_co_occurrence
     (env_ex\<lparr>similarity_search := (\<lambda>r. [9543, 42022]),
             co_occurrence := co_occurrence_df_normalized [(1, 9543), (1, 42022)]\<rparr>)
     state_ex =
     Inr (state_ex\<lparr>diagnosis := [entry 42022 ''oncology visit'', entry 9543 ''signal code'']\<rparr>)"
  by code_simp

section \<open>Properties of the graph\<close>

lemma run_chain_append:
  "run_chain env (ns @ ms) state =
     (case run_chain env ns state of Inl e \<Rightarrow> Inl e | Inr state' \<Rightarrow> run_chain env ms state')"
  by (induction ns arbitrary: state) (auto split: sum.splits)

lemma distinct_pivot_codes: "distinct pivot_codes"
  by (simp add: pivot_codes_def)

text \<open>
  Claim C1, as amended. The graph runs the identity dedup before the augmentation stage.
  In every run that reaches the terminal state, the list at the end of the dedup stage
  holds no two records with the same code, and the final list is that list followed by
  the records the augmentation appends, which have pairwise different codes among the
  pivot codes 42022 and 9543. So the final list is free of duplicates exactly when no
  appended code was already selected.
\<close>

theorem graph_dedup_before_augmentation:
  assumes "graph env state = Inr final"
  shows "\<exists>mid added.
           run_chain env [N_preprocess, N_model, N_validate, N_clear] state = Inr mid \<and>
           distinct (map code (diagnosis mid)) \<and>
           add_co_occurrence env mid = Inr final \<and>
           diagnosis final = diagnosis mid @ added \<and>
           distinct (map code added) \<and>
           set (map code added) \<subseteq> set pivot_codes \<and>
           distinct (map code (diagnosis final)) =
             (code ` set (diagnosis mid) \<inter> code ` set added = {})"
proof -
  let ?front = "[N_preprocess, N_model, N_validate]"
  have "edge_chain = (?front @ [N_clear]) @ [N_add_co_occurrence]"
    by (simp add: edge_chain_def)
  with assms have "run_chain env ((?front @ [N_clear]) @ [N_add_co_occurrence]) state = Inr final"
    by (simp only: graph_def)
  then obtain mid where mid: "run_chain env (?front @ [N_clear]) state = Inr mid"
    and fin: "run_chain env [N_add_co_occurrence] mid = Inr final"
    unfolding run_chain_append [of env "?front @ [N_clear]"] by (auto split: sum.splits)
  from mid obtain s3 where "run_chain env ?front state = Inr s3"
    and "run_chain env [N_clear] s3 = Inr mid"
    unfolding run_chain_append [of env ?front] by (auto split: sum.splits)
  then have "mid = clear env s3" by simp
  then have dm: "distinct (map code (diagnosis mid))"
    by (simp add: clear_def distinct_clear_vykony)
  from fin have add: "add_co_occurrence env mid = Inr final"
    by (simp split: sum.splits)
  define added where "added = List.map_filter (find_vykon_by_code (vykony_cis env))
     (filter (\<lambda>p. p \<in> set (kod (co_occurrence env)) \<and>
         (\<exists>a \<in> set (similarity_search env (report mid)). 3 / 5 \<le> cell (co_occurrence env) p a))
       pivot_codes)"
  from add_co_occurrence_result [OF add] have df: "diagnosis final = diagnosis mid @ added"
    by (simp add: added_def)
  have da: "distinct (map code added)" and sa: "set (map code added) \<subseteq> set pivot_codes"
    unfolding added_def codes_found using distinct_pivot_codes by auto
  from dm da df have "distinct (map code (diagnosis final)) =
      (code ` set (diagnosis mid) \<inter> code ` set added = {})"
    by simp
  with mid dm add df da sa show ?thesis by auto
qed

text \<open>
  The claim as stated fails: the selection holds 42022, the dedup runs, and then the
  augmentation appends the catalog record of 42022 again. The final list has two records
  with the code 42022.
\<close>

theorem graph_duplicate_counterexample:
  "graph env_ex state_ex =
     Inr \<lparr>report = ''report'',
          preprocess_diagnosis = [\<lparr>dg_code = ''C50'', dg_description = ''breast''\<rparr>],
          diagnosis =
            [(entry 42022 ''oncology visit'')\<lparr>explanation := Some ''documented''\<rparr>,
             entry 42022 ''oncology visit''],
          validity =
            Some [\<lparr>va_code = 42022, va_explanation = ''documented'', va_action = Keep\<rparr>]\<rparr> \<and>
   \<not> distinct (map code
       [(entry 42022 ''oncology visit'')\<lparr>explanation := Some ''documented''\<rparr>,
        entry 42022 ''oncology visit''])"
  by code_simp

text \<open>The amended statement at the same run.\<close>

theorem graph_dedup_before_augmentation_witness:
  "map_sum id (\<lambda>s. map code (diagnosis s)) (graph env_ex state_ex) = Inr [42022, 42022] \<and>
   (\<exists>final mid added.
      graph env_ex state_ex = Inr final \<and>
      run_chain env_ex [N_preprocess, N_model, N_validate, N_clear] state_ex = Inr mid \<and>
      distinct (map code (diagnosis mid)) \<and>
      add_co_occurrence env_ex mid = Inr final \<and>
      diagnosis final = diagnosis mid @ added \<and>
      distinct (map code added) \<and>
      set (map code added) \<subseteq> set pivot_codes \<and>
      distinct (map code (diagnosis final)) =
        (code ` set (diagnosis mid) \<inter> code ` set added = {}))"
proof -
  have c: "map_sum id (\<lambda>s. map code (diagnosis s)) (graph env_ex state_ex) = Inr [42022, 42022]"
    by code_simp
  then obtain final where f: "graph env_ex state_ex = Inr final"
    by (cases "graph env_ex state_ex") simp_all
  from graph_dedup_before_augmentation [OF f] f c show ?thesis by blast
qed

end
